theory Spec2Isabelle
  imports Complex_Main "HOL-Library.AList" "HOL-Library.Sublist"
begin

section \<open>JavaScript values reaching the integration\<close>

text \<open>
  The webhook payload is typed \<^verbatim>\<open>Record<string, unknown>\<close> and the message sent out is a
  plain object: both are values as \<^verbatim>\<open>JSON.parse\<close> builds them, together with \<open>undefined\<close>,
  which reading a missing property yields. An object is its list of own properties in
  insertion order.
\<close>

datatype jsval =
    JUndefined
  | JNull
  | JBool bool
  | JNum real
  | JStr string
  | JArr "jsval list"
  | JObj "(string \<times> jsval) list"

text \<open>\<^verbatim>\<open>!!v\<close>: \<open>undefined\<close>, \<open>null\<close>, \<open>false\<close>, \<open>0\<close> and the empty string are falsy, every
  array and every object is truthy.\<close>

fun truthy :: "jsval \<Rightarrow> bool" where
  "truthy JUndefined = False"
| "truthy JNull = False"
| "truthy (JBool b) = b"
| "truthy (JNum x) = (x \<noteq> 0)"
| "truthy (JStr s) = (s \<noteq> [])"
| "truthy (JArr xs) = True"
| "truthy (JObj kvs) = True"

text \<open>\<^verbatim>\<open>v?.k\<close> for the property names this program reads (\<open>object\<close>, \<open>entry\<close>, \<open>changes\<close>,
  \<open>field\<close>, \<open>value\<close>, \<open>messages\<close>, \<open>statuses\<close>, \<open>length\<close>): an own property of an object, the
  length of an array or a string, \<open>undefined\<close> everywhere else, also on \<open>null\<close> and
  \<open>undefined\<close>, where the optional chain short-circuits.\<close>

fun member :: "jsval \<Rightarrow> string \<Rightarrow> jsval" where
  "member (JObj kvs) k = (case map_of kvs k of Some v \<Rightarrow> v | None \<Rightarrow> JUndefined)"
| "member (JArr xs) k = (if k = ''length'' then JNum (of_nat (length xs)) else JUndefined)"
| "member (JStr s) k = (if k = ''length'' then JNum (of_nat (length s)) else JUndefined)"
| "member v k = JUndefined"

text \<open>\<^verbatim>\<open>a || b\<close>.\<close>

definition js_or :: "jsval \<Rightarrow> jsval \<Rightarrow> jsval" where
  "js_or a b = (if truthy a then a else b)"

section \<open>Configuration\<close>

text \<open>\<^verbatim>\<open>IWhatsAppConfig\<close> (domains/whatsapp/config/whatsapp-config.ts).\<close>

record whatsapp_config =
  businessAccountId :: string
  phoneNumberId :: string
  apiVersion :: string
  accessToken :: string
  webhookVerificationToken :: string
  apiBaseUrl :: string
  defaultLanguageCode :: string

section \<open>Webhook verification\<close>

text \<open>\<^verbatim>\<open>WhatsAppWebhookRepository.verifyWebhook\<close>; \<open>None\<close> is the \<open>null\<close> it returns.\<close>

definition verifyWebhook :: "whatsapp_config \<Rightarrow> string \<Rightarrow> string \<Rightarrow> string \<Rightarrow> string option" where
  "verifyWebhook config mode token challenge =
     (if mode = ''subscribe'' \<and> token = webhookVerificationToken config
      then Some challenge
      else None)"

section \<open>Webhook dispatch\<close>

text \<open>\<^verbatim>\<open>WhatsAppWebhookEventType\<close> (domains/whatsapp/repositories/whatsapp-webhook.repository.ts).\<close>

datatype WhatsAppWebhookEventType = EvMessage | EvStatus | EvMessageTemplateStatusUpdate

text \<open>
  A handler is a function \<^verbatim>\<open>(data: unknown) => Promise<void>\<close> supplied by the caller. What
  the dispatcher can observe of a call is whether it returns a promise, and whether that
  promise is fulfilled or rejected, or whether the call itself throws.
\<close>

datatype settled = Fulfilled | Rejected

datatype call_result = Promise settled | Throws

type_synonym handler = "jsval \<Rightarrow> call_result"

text \<open>The private \<^verbatim>\<open>eventHandlers\<close> map of the repository.\<close>

type_synonym eventHandlers = "WhatsAppWebhookEventType \<rightharpoonup> handler list"

text \<open>\<^verbatim>\<open>registerEventHandler\<close>: an absent key is first set to the empty array, then the handler
  is pushed.\<close>

definition registerEventHandler ::
  "eventHandlers \<Rightarrow> WhatsAppWebhookEventType \<Rightarrow> handler \<Rightarrow> eventHandlers" where
  "registerEventHandler hs eventType h =
     (let hs' = (if hs eventType = None then hs(eventType \<mapsto> []) else hs)
      in case hs' eventType of
           Some registered \<Rightarrow> hs'(eventType \<mapsto> registered @ [h])
         | None \<Rightarrow> hs')"

text \<open>\<^verbatim>\<open>this.eventHandlers.get(t) || []\<close>.\<close>

definition handlers_for :: "eventHandlers \<Rightarrow> WhatsAppWebhookEventType \<Rightarrow> handler list" where
  "handlers_for hs eventType = (case hs eventType of Some registered \<Rightarrow> registered | None \<Rightarrow> [])"

text \<open>
  One call of a handler, as a test spy would record it: the event type whose list the
  handler was taken from, its position in that list, the argument, and what the call did.
\<close>

record invocation =
  inv_event :: WhatsAppWebhookEventType
  inv_handler :: nat
  inv_arg :: jsval
  inv_result :: call_result

datatype exn = TypeError | HandlerError | SyntaxError | NetworkError | Error string

text \<open>A computation of the dispatcher: the handler calls it made, in order, and either the
  exception that ended it (\<open>Inl\<close>) or its value.\<close>

type_synonym 'a dispatch = "invocation list \<times> (exn + 'a)"

definition skip :: "unit dispatch" where
  "skip = ([], Inr ())"

text \<open>Sequencing of two statements: an exception in the first leaves the second unrun.\<close>

definition seq :: "unit dispatch \<Rightarrow> 'a dispatch \<Rightarrow> 'a dispatch" where
  "seq m k = (case m of
       (tr, Inl e) \<Rightarrow> (tr, Inl e)
     | (tr, Inr u) \<Rightarrow> (case k of (tr', r) \<Rightarrow> (tr @ tr', r)))"

text \<open>\<^verbatim>\<open>handlers.map(handler => handler(value))\<close>: the handlers are called in order; a call
  that throws ends the \<open>map\<close>, otherwise the promises are collected.\<close>

fun call_handlers ::
  "WhatsAppWebhookEventType \<Rightarrow> nat \<Rightarrow> handler list \<Rightarrow> jsval \<Rightarrow> settled list dispatch" where
  "call_handlers t i [] v = ([], Inr [])"
| "call_handlers t i (h # hs) v =
     (let inv = \<lparr>inv_event = t, inv_handler = i, inv_arg = v, inv_result = h v\<rparr>
      in case h v of
           Throws \<Rightarrow> ([inv], Inl HandlerError)
         | Promise p \<Rightarrow>
             (case call_handlers t (Suc i) hs v of
                (tr, Inl e) \<Rightarrow> (inv # tr, Inl e)
              | (tr, Inr ps) \<Rightarrow> (inv # tr, Inr (p # ps))))"

text \<open>\<^verbatim>\<open>await Promise.all(promises)\<close>: throws when one of the promises is rejected.\<close>

definition await_all :: "settled list \<Rightarrow> exn + unit" where
  "await_all ps = (if list_all (\<lambda>p. p = Fulfilled) ps then Inr () else Inl HandlerError)"

definition fan_out ::
  "WhatsAppWebhookEventType \<Rightarrow> handler list \<Rightarrow> jsval \<Rightarrow> unit dispatch" where
  "fan_out t handlers v = (case call_handlers t 0 handlers v of
       (tr, Inl e) \<Rightarrow> (tr, Inl e)
     | (tr, Inr promises) \<Rightarrow> (tr, await_all promises))"

text \<open>\<^verbatim>\<open>processMessages\<close> and \<^verbatim>\<open>processStatuses\<close>.\<close>

definition processMessages :: "eventHandlers \<Rightarrow> jsval \<Rightarrow> unit dispatch" where
  "processMessages hs v =
     (let messages = js_or (member v ''messages'') (JArr [])
      in if member messages ''length'' = JNum 0 then skip
         else fan_out EvMessage (handlers_for hs EvMessage) v)"

definition processStatuses :: "eventHandlers \<Rightarrow> jsval \<Rightarrow> unit dispatch" where
  "processStatuses hs v =
     (let statuses = js_or (member v ''statuses'') (JArr [])
      in if member statuses ''length'' = JNum 0 then skip
         else fan_out EvStatus (handlers_for hs EvStatus) v)"

text \<open>
  \<^verbatim>\<open>for (const x of v)\<close>: an array yields its elements and a string its characters; any other
  value is not iterable and the loop throws a \<open>TypeError\<close> before its first round.
\<close>

fun iterate :: "jsval \<Rightarrow> exn + jsval list" where
  "iterate (JArr xs) = Inr xs"
| "iterate (JStr s) = Inr (map (\<lambda>c. JStr [c]) s)"
| "iterate v = Inl TypeError"

fun for_each :: "('a \<Rightarrow> unit dispatch) \<Rightarrow> 'a list \<Rightarrow> unit dispatch" where
  "for_each body [] = skip"
| "for_each body (x # xs) = seq (body x) (for_each body xs)"

definition for_of :: "jsval \<Rightarrow> (jsval \<Rightarrow> unit dispatch) \<Rightarrow> unit dispatch" where
  "for_of v body = (case iterate v of Inl e \<Rightarrow> ([], Inl e) | Inr xs \<Rightarrow> for_each body xs)"

text \<open>The \<open>value\<close> object of a change, as the loop body reads it: \<^verbatim>\<open>change?.value || {}\<close>.\<close>

definition change_value :: "jsval \<Rightarrow> jsval" where
  "change_value change = js_or (member change ''value'') (JObj [])"

text \<open>The body of the inner loop of \<^verbatim>\<open>processWebhookPayload\<close>, one change.\<close>

definition process_change :: "eventHandlers \<Rightarrow> jsval \<Rightarrow> unit dispatch" where
  "process_change hs change =
     (if member change ''field'' \<noteq> JStr ''messages'' then skip
      else let v = change_value change
           in seq (if truthy (member v ''messages'') then processMessages hs v else skip)
                  (if truthy (member v ''statuses'') then processStatuses hs v else skip))"

text \<open>The body of the outer loop, one entry.\<close>

definition process_entry :: "eventHandlers \<Rightarrow> jsval \<Rightarrow> unit dispatch" where
  "process_entry hs entry =
     for_of (js_or (member entry ''changes'') (JArr [])) (process_change hs)"

text \<open>The \<^verbatim>\<open>try\<close> block of \<^verbatim>\<open>processWebhookPayload\<close>.\<close>

definition process_body :: "eventHandlers \<Rightarrow> jsval \<Rightarrow> bool dispatch" where
  "process_body hs payload =
     (if member payload ''object'' \<noteq> JStr ''whatsapp_business_account'' then ([], Inr False)
      else seq (for_of (js_or (member payload ''entry'') (JArr [])) (process_entry hs))
               ([], Inr True))"

text \<open>\<^verbatim>\<open>processWebhookPayload\<close>: the handler calls made and the boolean returned; the \<^verbatim>\<open>catch\<close>
  clause turns every exception of the \<^verbatim>\<open>try\<close> block into \<open>false\<close>.\<close>

definition processWebhookPayload :: "eventHandlers \<Rightarrow> jsval \<Rightarrow> invocation list \<times> bool" where
  "processWebhookPayload hs payload = (case process_body hs payload of
       (tr, Inl e) \<Rightarrow> (tr, False)
     | (tr, Inr b) \<Rightarrow> (tr, b))"

text \<open>The values a \<^verbatim>\<open>for ... of\<close> loop over \<open>v\<close> visits; none when \<open>v\<close> is not iterable.\<close>

definition elements :: "jsval \<Rightarrow> jsval list" where
  "elements v = (case iterate v of Inr xs \<Rightarrow> xs | Inl e \<Rightarrow> [])"

text \<open>The entries the outer loop walks, the changes the inner loop walks in one entry,
  and all the changes of a payload, in the order of the walk.\<close>

definition payload_entries :: "jsval \<Rightarrow> jsval list" where
  "payload_entries payload = elements (js_or (member payload ''entry'') (JArr []))"

definition entry_changes :: "jsval \<Rightarrow> jsval list" where
  "entry_changes entry = elements (js_or (member entry ''changes'') (JArr []))"

definition payload_changes :: "jsval \<Rightarrow> jsval list" where
  "payload_changes payload = concat (map entry_changes (payload_entries payload))"

text \<open>Registering a list of handlers one after the other for the same event type.\<close>

definition register_all ::
  "eventHandlers \<Rightarrow> WhatsAppWebhookEventType \<Rightarrow> handler list \<Rightarrow> eventHandlers" where
  "register_all hs eventType handlers =
     foldl (\<lambda>r h. registerEventHandler r eventType h) hs handlers"

text \<open>One call of each handler of a list, in the order of the list, all with the argument
  \<open>v\<close>, as calls of \<open>message\<close> handlers.\<close>

definition message_calls :: "handler list \<Rightarrow> jsval \<Rightarrow> invocation list" where
  "message_calls handlers v =
     map (\<lambda>i. \<lparr>inv_event = EvMessage, inv_handler = i, inv_arg = v,
                inv_result = (handlers ! i) v\<rparr>)
       [0..<length handlers]"

text \<open>No handler call of a trace threw or was rejected.\<close>

definition fulfilled :: "invocation list \<Rightarrow> bool" where
  "fulfilled tr = list_all (\<lambda>call. inv_result call = Promise Fulfilled) tr"

text \<open>A computation that returned made only calls that were fulfilled.\<close>

definition clean :: "'a dispatch \<Rightarrow> bool" where
  "clean m = (case m of (tr, Inr x) \<Rightarrow> fulfilled tr | (tr, Inl e) \<Rightarrow> True)"

text \<open>Shapes of values: an array, an array with an element, and a value the casts
  \<^verbatim>\<open>as Array<...>\<close> of the dispatcher are right about (falsy, so that \<^verbatim>\<open>|| []\<close> replaces it,
  or an array).\<close>

definition is_array :: "jsval \<Rightarrow> bool" where
  "is_array v = (case v of JArr xs \<Rightarrow> True | _ \<Rightarrow> False)"

definition nonempty_array :: "jsval \<Rightarrow> bool" where
  "nonempty_array v = (case v of JArr (x # xs) \<Rightarrow> True | _ \<Rightarrow> False)"

definition absent_or_array :: "jsval \<Rightarrow> bool" where
  "absent_or_array v = (\<not> truthy v \<or> is_array v)"

text \<open>A change with field \<open>messages\<close> whose value carries a non-empty \<open>messages\<close> or
  \<open>statuses\<close> array.\<close>

definition message_bearing :: "jsval \<Rightarrow> bool" where
  "message_bearing change =
     (member change ''field'' = JStr ''messages'' \<and>
      (nonempty_array (member (change_value change) ''messages'') \<or>
       nonempty_array (member (change_value change) ''statuses'')))"

section \<open>HTTP client\<close>

text \<open>What \<^verbatim>\<open>post\<close> passes to \<^verbatim>\<open>fetch\<close>, and what it reads of the \<^verbatim>\<open>Response\<close>: \<open>json\<close> is
  the outcome of \<^verbatim>\<open>response.json()\<close>, \<open>None\<close> when that promise is rejected because the
  body is not JSON.\<close>

record request =
  req_url :: string
  req_method :: string
  req_headers :: "(string \<times> string) list"
  req_body :: string

record response =
  ok :: bool
  status :: nat
  statusText :: string
  json :: "jsval option"

text \<open>A status code in a template literal: its decimal digits.\<close>

definition digit_char :: "nat \<Rightarrow> char" where
  "digit_char d = char_of (48 + d)"

fun show_nat :: "nat \<Rightarrow> string" where
  "show_nat n = (if n < 10 then [digit_char n] else show_nat (n div 10) @ [digit_char (n mod 10)])"

declare show_nat.simps [simp del]

text \<open>
  \<^verbatim>\<open>WhatsAppHttpClient.post\<close>. The platform functions it calls are parameters: \<open>fetch\<close>, which
  either rejects or yields a response, and \<open>stringify\<close>, which is \<^verbatim>\<open>JSON.stringify\<close>.
\<close>

definition post_request ::
  "(jsval \<Rightarrow> string) \<Rightarrow> whatsapp_config \<Rightarrow> string \<Rightarrow> jsval \<Rightarrow> request" where
  "post_request stringify config endpoint body =
     \<lparr>req_url = (if prefix ''http'' endpoint then endpoint
                 else apiBaseUrl config @ ''/'' @ apiVersion config @ ''/'' @ endpoint),
      req_method = ''POST'',
      req_headers = [(''Content-Type'', ''application/json''),
                     (''Authorization'', ''Bearer '' @ accessToken config)],
      req_body = stringify body\<rparr>"

text \<open>\<^verbatim>\<open>await response.json().catch(() => ({}))\<close>.\<close>

definition errorData :: "response \<Rightarrow> jsval" where
  "errorData r = (case json r of Some d \<Rightarrow> d | None \<Rightarrow> JObj [])"

definition api_error_message :: "(jsval \<Rightarrow> string) \<Rightarrow> response \<Rightarrow> string" where
  "api_error_message stringify r =
     ''WhatsApp API error: '' @ show_nat (status r) @ '' '' @ statusText r @ '' - '' @
     stringify (errorData r)"

definition post ::
  "(request \<Rightarrow> exn + response) \<Rightarrow> (jsval \<Rightarrow> string) \<Rightarrow> whatsapp_config \<Rightarrow>
   string \<Rightarrow> jsval \<Rightarrow> exn + jsval" where
  "post fetch stringify config endpoint body =
     (case fetch (post_request stringify config endpoint body) of
        Inl e \<Rightarrow> Inl e
      | Inr r \<Rightarrow>
          if \<not> ok r then Inl (Error (api_error_message stringify r))
          else (case json r of Some d \<Rightarrow> Inr d | None \<Rightarrow> Inl SyntaxError))"

section \<open>Message repository\<close>

text \<open>\<^verbatim>\<open>{ ...message, messaging_product: 'whatsapp' }\<close>: the own properties of the message in
  their order, the named one overwritten where it exists and appended where it does not.\<close>

definition messageToSend :: "(string \<times> jsval) list \<Rightarrow> (string \<times> jsval) list" where
  "messageToSend message = AList.update ''messaging_product'' (JStr ''whatsapp'') message"

text \<open>\<^verbatim>\<open>WhatsAppMessageRepository.sendMessage\<close>, over the \<^verbatim>\<open>post\<close> of its HTTP client.\<close>

definition sendMessage ::
  "(string \<Rightarrow> jsval \<Rightarrow> exn + jsval) \<Rightarrow> whatsapp_config \<Rightarrow> (string \<times> jsval) list \<Rightarrow> exn + jsval" where
  "sendMessage http_post config message =
     http_post (phoneNumberId config @ ''/messages'') (JObj (messageToSend message))"

text \<open>The claim of the specification on the error message, as it is worded: the message
  holds the status code, the status text and the serialised body of the response.\<close>

definition embeds_response :: "(jsval \<Rightarrow> string) \<Rightarrow> response \<Rightarrow> string \<Rightarrow> bool" where
  "embeds_response stringify r msg =
     (sublist (show_nat (status r)) msg \<and> sublist (statusText r) msg \<and>
      (case json r of Some d \<Rightarrow> sublist (stringify d) msg | None \<Rightarrow> False))"

section \<open>Configuration from the environment\<close>

text \<open>The constructor of \<^verbatim>\<open>WhatsAppConfig\<close> (infrastructure/config/whatsapp-config.ts): the
  last two parameters have defaults, taken when the argument is \<open>undefined\<close> (\<open>None\<close>).\<close>

definition WhatsAppConfig ::
  "string \<Rightarrow> string \<Rightarrow> string \<Rightarrow> string \<Rightarrow> string \<Rightarrow> string option \<Rightarrow> string option
   \<Rightarrow> whatsapp_config" where
  "WhatsAppConfig business phone version token verification baseUrl languageCode =
     \<lparr>businessAccountId = business, phoneNumberId = phone, apiVersion = version,
      accessToken = token, webhookVerificationToken = verification,
      apiBaseUrl = (case baseUrl of Some u \<Rightarrow> u | None \<Rightarrow> ''https://graph.facebook.com''),
      defaultLanguageCode = (case languageCode of Some l \<Rightarrow> l | None \<Rightarrow> ''en_US'')\<rparr>"

definition requiredVars :: "string list" where
  "requiredVars =
     [''WHATSAPP_BUSINESS_ACCOUNT_ID'', ''WHATSAPP_PHONE_NUMBER_ID'', ''WHATSAPP_API_VERSION'',
      ''WHATSAPP_ACCESS_TOKEN'', ''WHATSAPP_WEBHOOK_VERIFICATION_TOKEN'']"

text \<open>\<^verbatim>\<open>process.env\<close> maps a name to a string or to \<open>undefined\<close>. \<^verbatim>\<open>!process.env[v]\<close> holds of
  a variable that is unset and of one that is set to the empty string.\<close>

definition env_falsy :: "(string \<rightharpoonup> string) \<Rightarrow> string \<Rightarrow> bool" where
  "env_falsy env v = (case env v of None \<Rightarrow> True | Some s \<Rightarrow> s = [])"

text \<open>\<^verbatim>\<open>process.env.X || d\<close>.\<close>

definition env_or :: "(string \<rightharpoonup> string) \<Rightarrow> string \<Rightarrow> string \<Rightarrow> string" where
  "env_or env v d = (if env_falsy env v then d else (case env v of Some s \<Rightarrow> s | None \<Rightarrow> d))"

text \<open>\<^verbatim>\<open>process.env.X!\<close>: read only after the check for missing variables, where the variable
  is set; the type assertion itself does nothing.\<close>

definition env_required :: "(string \<rightharpoonup> string) \<Rightarrow> string \<Rightarrow> string" where
  "env_required env v = (case env v of Some s \<Rightarrow> s | None \<Rightarrow> [])"

text \<open>\<^verbatim>\<open>Array.prototype.join\<close> on an array of strings.\<close>

fun join :: "string \<Rightarrow> string list \<Rightarrow> string" where
  "join sep [] = []"
| "join sep [x] = x"
| "join sep (x # y # ys) = x @ sep @ join sep (y # ys)"

definition fromEnv :: "(string \<rightharpoonup> string) \<Rightarrow> exn + whatsapp_config" where
  "fromEnv env =
     (let missingVars = filter (\<lambda>varName. env_falsy env varName) requiredVars
      in if length missingVars > 0
         then Inl (Error (''Missing required environment variables: '' @ join '', '' missingVars))
         else Inr (WhatsAppConfig
                (env_required env ''WHATSAPP_BUSINESS_ACCOUNT_ID'')
                (env_required env ''WHATSAPP_PHONE_NUMBER_ID'')
                (env_required env ''WHATSAPP_API_VERSION'')
                (env_required env ''WHATSAPP_ACCESS_TOKEN'')
                (env_required env ''WHATSAPP_WEBHOOK_VERIFICATION_TOKEN'')
                (Some (env_or env ''WHATSAPP_API_BASE_URL'' ''https://graph.facebook.com''))
                (Some (env_or env ''WHATSAPP_DEFAULT_LANGUAGE_CODE'' ''en_US''))))"

section \<open>Sending a media message\<close>

text \<open>\<^verbatim>\<open>SendMediaMessageParams\<close> (domains/whatsapp/use-cases/send-message.usecase.ts); an
  optional field that is absent is \<open>None\<close>.\<close>

datatype mediaType = Image | Audio | Document | Video | Sticker

fun mediaType_name :: "mediaType \<Rightarrow> string" where
  "mediaType_name Image = ''image''"
| "mediaType_name Audio = ''audio''"
| "mediaType_name Document = ''document''"
| "mediaType_name Video = ''video''"
| "mediaType_name Sticker = ''sticker''"

record SendMediaMessageParams =
  to :: string
  mediaType :: mediaType
  mediaId :: "string option"
  mediaUrl :: "string option"
  caption :: "string option"
  filename :: "string option"
  replyToMessageId :: "string option"

text \<open>Truthiness of an optional string, and \<^verbatim>\<open>...(x ? { k: x } : {})\<close>.\<close>

definition provided :: "string option \<Rightarrow> bool" where
  "provided x = (case x of Some s \<Rightarrow> s \<noteq> [] | None \<Rightarrow> False)"

definition optional_field :: "string \<Rightarrow> string option \<Rightarrow> (string \<times> jsval) list" where
  "optional_field k x = (case x of Some s \<Rightarrow> (if s \<noteq> [] then [(k, JStr s)] else []) | None \<Rightarrow> [])"

text \<open>\<^verbatim>\<open>SendMessageUseCase.sendMediaMessage\<close>, over the \<^verbatim>\<open>sendMessage\<close> of its repository:
  the messages it passed to the repository, and the exception thrown or the response.\<close>

definition sendMediaMessage ::
  "((string \<times> jsval) list \<Rightarrow> exn + jsval) \<Rightarrow> SendMediaMessageParams \<Rightarrow>
   (string \<times> jsval) list list \<times> (exn + jsval)" where
  "sendMediaMessage repository_sendMessage params =
     (if \<not> provided (mediaId params) \<and> \<not> provided (mediaUrl params)
      then ([], Inl (Error ''Either mediaId or mediaUrl must be provided''))
      else
        let mediaContent =
              optional_field ''id'' (mediaId params) @ optional_field ''link'' (mediaUrl params) @
              optional_field ''caption'' (caption params) @
              optional_field ''filename'' (filename params);
            message =
              [(''messaging_product'', JStr ''whatsapp''),
               (''recipient_type'', JStr ''individual''),
               (''to'', JStr (to params)),
               (''type'', JStr (mediaType_name (mediaType params))),
               (mediaType_name (mediaType params), JObj mediaContent)];
            message' =
              (case replyToMessageId params of
                 Some r \<Rightarrow>
                   (if r \<noteq> [] then message @ [(''context'', JObj [(''message_id'', JStr r)])]
                    else message)
               | None \<Rightarrow> message)
        in ([message'], repository_sendMessage message'))"

section \<open>Properties of the webhook verifier\<close>

text \<open>
  C1. For every mode, token and challenge, \<open>verifyWebhook\<close> returns the challenge itself
  exactly when the mode is the literal \<open>subscribe\<close> and the token is the configured
  \<open>webhookVerificationToken\<close>; in every other combination it returns \<open>null\<close>.
\<close>

theorem verifyWebhook_challenge_iff:
  "(verifyWebhook config mode token challenge = Some challenge
      \<longleftrightarrow> mode = ''subscribe'' \<and> token = webhookVerificationToken config)
   \<and> (verifyWebhook config mode token challenge = None
      \<longleftrightarrow> \<not> (mode = ''subscribe'' \<and> token = webhookVerificationToken config))"
  by (simp add: verifyWebhook_def)

section \<open>Properties of the webhook dispatcher\<close>

subsection \<open>Sequencing and loops\<close>

lemmas dispatch_defs =
  processWebhookPayload_def process_body_def process_entry_def process_change_def
  change_value_def processMessages_def processStatuses_def fan_out_def await_all_def
  for_of_def seq_def skip_def js_or_def handlers_for_def registerEventHandler_def

lemmas payload_defs =
  payload_changes_def payload_entries_def entry_changes_def elements_def js_or_def
  change_value_def

lemma seq_skip [simp]: "seq skip k = k"
  by (cases k) (simp add: seq_def skip_def)

lemma seq_assoc: "seq (seq a b) c = seq a (seq b c)"
  by (auto simp: seq_def split: prod.splits sum.splits)

lemma seq_Inr_left: "seq (tr, Inr ()) k = (tr @ fst k, snd k)"
  by (cases k) (simp add: seq_def)

lemma seq_Inl_left: "seq (tr, Inl e) k = (tr, Inl e)"
  by (simp add: seq_def)

lemma fst_seq_subset: "set (fst (seq m k)) \<subseteq> set (fst m) \<union> set (fst k)"
  by (auto simp: seq_def split: prod.splits sum.splits)

lemma for_each_append:
  "for_each body (xs @ ys) = seq (for_each body xs) (for_each body ys)"
  by (induction xs) (simp_all add: seq_assoc)

lemma for_each_skip: "(\<And>x. x \<in> set xs \<Longrightarrow> body x = skip) \<Longrightarrow> for_each body xs = skip"
  by (induction xs) simp_all

lemma for_each_trace:
  "call \<in> set (fst (for_each body xs)) \<Longrightarrow> \<exists>x\<in>set xs. call \<in> set (fst (body x))"
proof (induction xs)
  case Nil
  then show ?case by (simp add: skip_def)
next
  case (Cons x xs)
  then show ?case using fst_seq_subset [of "body x" "for_each body xs"] by auto
qed

lemma for_of_trace:
  "call \<in> set (fst (for_of v body)) \<Longrightarrow> \<exists>x\<in>set (elements v). call \<in> set (fst (body x))"
  by (cases "iterate v") (auto simp: for_of_def elements_def dest: for_each_trace)

subsection \<open>Calling the handlers of one event type\<close>

lemma call_handlers_results:
  "call_handlers t i hs v = (tr, Inr ps) \<Longrightarrow> map inv_result tr = map Promise ps"
  by (induction hs arbitrary: i tr ps)
     (auto simp: Let_def split: call_result.splits prod.splits sum.splits)

lemma call_handlers_args_aux:
  "call_handlers t i hs v = (tr, r) \<Longrightarrow> call \<in> set tr \<Longrightarrow>
     inv_event call = t \<and> inv_arg call = v"
  by (induction hs arbitrary: i tr r)
     (auto simp: Let_def split: call_result.splits prod.splits sum.splits)

lemma call_handlers_args:
  "call \<in> set (fst (call_handlers t i hs v)) \<Longrightarrow> inv_event call = t \<and> inv_arg call = v"
  using call_handlers_args_aux
    [of t i hs v "fst (call_handlers t i hs v)" "snd (call_handlers t i hs v)" call]
  by simp

lemma fan_out_args:
  "call \<in> set (fst (fan_out t hs v)) \<Longrightarrow> inv_event call = t \<and> inv_arg call = v"
  using call_handlers_args [of call t 0 hs v]
  by (auto simp: fan_out_def split: prod.splits sum.splits)

lemma fan_out_fulfilled:
  assumes "fan_out t hs v = (tr, Inr u)" "call \<in> set tr"
  shows "inv_result call = Promise Fulfilled"
proof -
  from assms(1) obtain ps where c: "call_handlers t 0 hs v = (tr, Inr ps)"
    and a: "list_all (\<lambda>p. p = Fulfilled) ps"
    by (auto simp: fan_out_def await_all_def split: prod.splits sum.splits if_splits)
  from call_handlers_results [OF c] have "map inv_result tr = map Promise ps" .
  moreover from a have "map Promise ps = map (\<lambda>_. Promise Fulfilled) ps"
    by (simp add: list_all_iff)
  ultimately have "map inv_result tr = map (\<lambda>_. Promise Fulfilled) ps" by simp
  then have "set (map inv_result tr) \<subseteq> {Promise Fulfilled}" by auto
  with assms(2) show ?thesis by auto
qed

lemma call_handlers_nothrow:
  assumes "\<forall>h\<in>set hs. h v \<noteq> Throws"
  shows "call_handlers t i hs v =
     (map (\<lambda>j. \<lparr>inv_event = t, inv_handler = i + j, inv_arg = v, inv_result = (hs ! j) v\<rparr>)
        [0..<length hs],
      Inr (map (\<lambda>h. case h v of Promise p \<Rightarrow> p | Throws \<Rightarrow> Rejected) hs))"
  using assms
proof (induction hs arbitrary: i)
  case Nil
  then show ?case by simp
next
  case (Cons h hs)
  from Cons.prems obtain p where p: "h v = Promise p" by (cases "h v") auto
  have up: "[0..<length (h # hs)] = 0 # map Suc [0..<length hs]"
    by (simp add: upt_conv_Cons map_Suc_upt del: upt_Suc)
  from Cons.prems have "\<forall>h\<in>set hs. h v \<noteq> Throws" by simp
  from Cons.IH [OF this, of "Suc i"] p show ?case
    unfolding up by (simp add: comp_def)
qed

lemma fan_out_nothrow:
  assumes "\<forall>h\<in>set hs. h v \<noteq> Throws"
  shows "fan_out EvMessage hs v =
     (message_calls hs v,
      if list_all (\<lambda>h. h v = Promise Fulfilled) hs then Inr () else Inl HandlerError)"
proof -
  have "list_all (\<lambda>p. p = Fulfilled)
          (map (\<lambda>h. case h v of Promise p \<Rightarrow> p | Throws \<Rightarrow> Rejected) hs)
      = list_all (\<lambda>h. h v = Promise Fulfilled) hs"
    using assms by (induction hs) (auto split: call_result.splits)
  then show ?thesis
    using call_handlers_nothrow [OF assms, of EvMessage 0]
    by (simp add: fan_out_def await_all_def message_calls_def)
qed

lemma handlers_for_register:
  "handlers_for (registerEventHandler hs t h) t' =
     (if t' = t then handlers_for hs t @ [h] else handlers_for hs t')"
  by (auto simp: handlers_for_def registerEventHandler_def Let_def split: option.splits)

lemma handlers_for_register_all:
  "handlers_for (register_all hs t handlers) t = handlers_for hs t @ handlers"
  unfolding register_all_def
  by (induction handlers arbitrary: hs) (simp_all add: handlers_for_register)

subsection \<open>A dispatch that returns made no failing call\<close>

lemma fulfilled_simps [simp]:
  "fulfilled []" "fulfilled (a @ b) = (fulfilled a \<and> fulfilled b)"
  by (simp_all add: fulfilled_def)

lemma clean_skip [simp]: "clean skip"
  by (simp add: clean_def skip_def)

lemma clean_seq: "clean m \<Longrightarrow> clean k \<Longrightarrow> clean (seq m k)"
  by (auto simp: clean_def seq_def split: prod.splits sum.splits)

lemma clean_fan_out: "clean (fan_out t hs v)"
  using fan_out_fulfilled [of t hs v]
  by (auto simp: clean_def fulfilled_def list_all_iff split: prod.splits sum.splits)

lemma clean_for_each: "(\<And>x. x \<in> set xs \<Longrightarrow> clean (body x)) \<Longrightarrow> clean (for_each body xs)"
  by (induction xs) (simp_all add: clean_seq)

lemma clean_for_of: "(\<And>x. clean (body x)) \<Longrightarrow> clean (for_of v body)"
  by (cases "iterate v") (simp_all add: for_of_def clean_for_each, simp add: clean_def)

lemma clean_processMessages: "clean (processMessages hs v)"
  by (simp add: processMessages_def Let_def clean_fan_out)

lemma clean_processStatuses: "clean (processStatuses hs v)"
  by (simp add: processStatuses_def Let_def clean_fan_out)

lemma clean_process_change: "clean (process_change hs change)"
  by (simp add: process_change_def Let_def clean_seq clean_processMessages
      clean_processStatuses)

lemma clean_process_entry: "clean (process_entry hs entry)"
  by (simp add: process_entry_def clean_for_of clean_process_change)

lemma clean_process_body: "clean (process_body hs payload)"
proof -
  have "clean (([], Inr True) :: bool dispatch)" by (simp add: clean_def)
  then show ?thesis
    by (simp add: process_body_def clean_seq clean_for_of clean_process_entry)
       (simp add: clean_def)
qed

text \<open>
  C2. For every payload, if a handler that was invoked during the dispatch throws or
  returns a promise that is rejected, \<open>processWebhookPayload\<close> returns \<open>false\<close>. It never
  throws (its result is a boolean in every case), and the boolean is all it reports: which
  handlers succeeded is not part of the result.
\<close>

theorem failing_handler_reports_false:
  assumes "processWebhookPayload hs payload = (tr, result)"
    and "call \<in> set tr"
    and "inv_result call \<noteq> Promise Fulfilled"
  shows "result = False"
proof (cases "process_body hs payload")
  case (Pair tr' r)
  show ?thesis
  proof (cases r)
    case (Inl e)
    with Pair assms(1) show ?thesis by (simp add: processWebhookPayload_def)
  next
    case (Inr b)
    with Pair assms(1) have eq: "tr' = tr" "b = result"
      by (simp_all add: processWebhookPayload_def)
    from clean_process_body [of hs payload] Pair Inr eq have "fulfilled tr"
      by (simp add: clean_def)
    with assms(2,3) show ?thesis by (simp add: fulfilled_def list_all_iff)
  qed
qed

theorem failing_handler_reports_false_witness:
  "processWebhookPayload
     (registerEventHandler Map.empty EvMessage (\<lambda>v. Promise Rejected))
     (JObj [(''object'', JStr ''whatsapp_business_account''),
            (''entry'', JArr [JObj [(''changes'', JArr [JObj [(''field'', JStr ''messages''),
               (''value'', JObj [(''messages'', JArr [JObj []])])]])]])])
   = ([\<lparr>inv_event = EvMessage, inv_handler = 0,
        inv_arg = JObj [(''messages'', JArr [JObj []])],
        inv_result = Promise Rejected\<rparr>], False)"
  (is "processWebhookPayload ?hs ?payload = ([?call], False)")
proof -
  have trace: "fst (processWebhookPayload ?hs ?payload) = [?call]"
    by (simp add: dispatch_defs)
  then have run: "processWebhookPayload ?hs ?payload = ([?call], snd (processWebhookPayload ?hs ?payload))"
    by (metis prod.collapse)
  have "snd (processWebhookPayload ?hs ?payload) = False"
    by (rule failing_handler_reports_false [OF run, of ?call]) simp_all
  with run show ?thesis by simp
qed

text \<open>
  C7. For every payload whose top-level \<open>object\<close> field is not the literal
  \<open>whatsapp_business_account\<close>, \<open>processWebhookPayload\<close> returns \<open>false\<close>, without throwing and
  without a single handler call.
\<close>

theorem foreign_object_rejected:
  "member payload ''object'' \<noteq> JStr ''whatsapp_business_account''
     \<Longrightarrow> processWebhookPayload hs payload = ([], False)"
  by (simp add: processWebhookPayload_def process_body_def)

theorem foreign_object_rejected_witness:
  "processWebhookPayload
     (registerEventHandler Map.empty EvMessage (\<lambda>v. Promise Fulfilled))
     (JObj [(''object'', JStr ''invalid-object''),
            (''entry'', JArr [JObj [(''changes'', JArr [JObj [(''field'', JStr ''messages''),
               (''value'', JObj [(''messages'', JArr [JObj []])])]])]])])
   = ([], False)"
  by (rule foreign_object_rejected) simp

subsection \<open>Which changes reach the handlers\<close>

lemma process_change_skip:
  "member change ''field'' \<noteq> JStr ''messages'' \<Longrightarrow> process_change hs change = skip"
  by (simp add: process_change_def)

lemma process_change_trace:
  assumes "call \<in> set (fst (process_change hs change))"
  shows "member change ''field'' = JStr ''messages'' \<and> inv_arg call = change_value change"
proof -
  have f: "member change ''field'' = JStr ''messages''"
    using assms by (auto simp: process_change_def skip_def split: if_splits)
  let ?v = "change_value change"
  have "call \<in> set (fst (processMessages hs ?v)) \<or> call \<in> set (fst (processStatuses hs ?v))"
    using assms f
      fst_seq_subset [of "if truthy (member ?v ''messages'') then processMessages hs ?v else skip"
        "if truthy (member ?v ''statuses'') then processStatuses hs ?v else skip"]
    by (auto simp: process_change_def Let_def skip_def split: if_splits)
  then have "inv_arg call = ?v"
    by (auto simp: processMessages_def processStatuses_def Let_def skip_def
        dest: fan_out_args split: if_splits)
  with f show ?thesis by simp
qed

text \<open>
  C6. For every payload whose top-level \<open>object\<close> field is \<open>whatsapp_business_account\<close>, every
  handler call of \<open>processWebhookPayload\<close>, for the \<open>message\<close> as for the \<open>status\<close> event type,
  is made for a change of the payload whose \<open>field\<close> is \<open>messages\<close>, with the value of that
  change as argument; a change with any other \<open>field\<close> runs the loop body to its end with
  no handler call at all.
\<close>

theorem handlers_only_for_messages_changes:
  assumes "member payload ''object'' = JStr ''whatsapp_business_account''"
  shows "(\<forall>call\<in>set (fst (processWebhookPayload hs payload)).
            \<exists>change\<in>set (payload_changes payload).
              member change ''field'' = JStr ''messages'' \<and> inv_arg call = change_value change)
       \<and> (\<forall>change. member change ''field'' \<noteq> JStr ''messages''
             \<longrightarrow> process_change hs change = skip)"
proof (intro conjI ballI allI impI)
  fix call assume "call \<in> set (fst (processWebhookPayload hs payload))"
  then have "call \<in> set (fst (process_body hs payload))"
    by (auto simp: processWebhookPayload_def split: prod.splits sum.splits)
  then have "call \<in> set (fst (for_of (js_or (member payload ''entry'') (JArr []))
                (process_entry hs)))"
    using assms
      fst_seq_subset [of "for_of (js_or (member payload ''entry'') (JArr [])) (process_entry hs)"
        "([], Inr True)"]
    by (auto simp: process_body_def)
  then obtain entry where e: "entry \<in> set (payload_entries payload)"
      and "call \<in> set (fst (process_entry hs entry))"
    unfolding payload_entries_def by (blast dest: for_of_trace)
  then obtain change where c: "change \<in> set (entry_changes entry)"
      and i: "call \<in> set (fst (process_change hs change))"
    unfolding process_entry_def entry_changes_def by (blast dest: for_of_trace)
  from e c have "change \<in> set (payload_changes payload)"
    by (auto simp: payload_changes_def)
  with process_change_trace [OF i]
  show "\<exists>change\<in>set (payload_changes payload).
          member change ''field'' = JStr ''messages'' \<and> inv_arg call = change_value change"
    by blast
next
  fix change assume "member change ''field'' \<noteq> JStr ''messages''"
  then show "process_change hs change = skip" by (rule process_change_skip)
qed

theorem handlers_only_for_messages_changes_witness:
  "fst (processWebhookPayload
     (registerEventHandler (registerEventHandler Map.empty EvMessage (\<lambda>v. Promise Fulfilled))
        EvStatus (\<lambda>v. Promise Fulfilled))
     (JObj [(''object'', JStr ''whatsapp_business_account''),
            (''entry'', JArr [JObj [(''changes'', JArr
               [JObj [(''field'', JStr ''account_update''),
                      (''value'', JObj [(''messages'', JArr [JStr ''a''])])],
                JObj [(''field'', JStr ''messages''),
                      (''value'', JObj [(''statuses'', JArr [JStr ''b''])])]])]])]))
   = [\<lparr>inv_event = EvStatus, inv_handler = 0, inv_arg = JObj [(''statuses'', JArr [JStr ''b''])],
        inv_result = Promise Fulfilled\<rparr>]
   \<and> (\<exists>change\<in>set (payload_changes
     (JObj [(''object'', JStr ''whatsapp_business_account''),
            (''entry'', JArr [JObj [(''changes'', JArr
               [JObj [(''field'', JStr ''account_update''),
                      (''value'', JObj [(''messages'', JArr [JStr ''a''])])],
                JObj [(''field'', JStr ''messages''),
                      (''value'', JObj [(''statuses'', JArr [JStr ''b''])])]])]])])).
        member change ''field'' = JStr ''messages''
        \<and> JObj [(''statuses'', JArr [JStr ''b''])] = change_value change)
   \<and> process_change
        (registerEventHandler (registerEventHandler Map.empty EvMessage (\<lambda>v. Promise Fulfilled))
           EvStatus (\<lambda>v. Promise Fulfilled))
        (JObj [(''field'', JStr ''account_update''),
               (''value'', JObj [(''messages'', JArr [JStr ''a''])])]) = skip"
  (is "fst (processWebhookPayload ?hs ?payload) = [?call] \<and> ?origin \<and> process_change ?hs ?other = skip")
proof -
  have obj: "member ?payload ''object'' = JStr ''whatsapp_business_account''" by simp
  note inst = handlers_only_for_messages_changes [OF obj, of ?hs]
  have trace: "fst (processWebhookPayload ?hs ?payload) = [?call]"
    by (simp add: dispatch_defs)
  from inst have "\<forall>call\<in>set (fst (processWebhookPayload ?hs ?payload)).
            \<exists>change\<in>set (payload_changes ?payload).
              member change ''field'' = JStr ''messages'' \<and> inv_arg call = change_value change"
    by (rule conjunct1)
  then have origin: ?origin unfolding trace by simp
  from inst have "\<forall>change. member change ''field'' \<noteq> JStr ''messages''
             \<longrightarrow> process_change ?hs change = skip"
    by (rule conjunct2)
  then have "process_change ?hs ?other = skip" by simp
  with trace origin show ?thesis by blast
qed

subsection \<open>Payloads that carry nothing to dispatch\<close>

lemma absent_or_arrayE:
  assumes "absent_or_array v"
  obtains xs where "js_or v (JArr []) = JArr xs" "elements (js_or v (JArr [])) = xs"
  using assms
  by (cases v) (auto simp: absent_or_array_def is_array_def js_or_def elements_def)

lemma processMessages_quiet:
  assumes "absent_or_array (member v ''messages'')" "\<not> nonempty_array (member v ''messages'')"
  shows "(if truthy (member v ''messages'') then processMessages hs v else skip) = skip"
proof (cases "truthy (member v ''messages'')")
  case True
  with assms have "member v ''messages'' = JArr []"
    by (cases "member v ''messages''")
       (auto simp: absent_or_array_def is_array_def nonempty_array_def split: list.splits)
  then show ?thesis by (simp add: processMessages_def js_or_def)
qed simp

lemma processStatuses_quiet:
  assumes "absent_or_array (member v ''statuses'')" "\<not> nonempty_array (member v ''statuses'')"
  shows "(if truthy (member v ''statuses'') then processStatuses hs v else skip) = skip"
proof (cases "truthy (member v ''statuses'')")
  case True
  with assms have "member v ''statuses'' = JArr []"
    by (cases "member v ''statuses''")
       (auto simp: absent_or_array_def is_array_def nonempty_array_def split: list.splits)
  then show ?thesis by (simp add: processStatuses_def js_or_def)
qed simp

lemma process_change_quiet:
  assumes "member change ''field'' = JStr ''messages'' \<longrightarrow>
             absent_or_array (member (change_value change) ''messages'') \<and>
             absent_or_array (member (change_value change) ''statuses'')"
    and "\<not> message_bearing change"
  shows "process_change hs change = skip"
proof (cases "member change ''field'' = JStr ''messages''")
  case True
  with assms have "absent_or_array (member (change_value change) ''messages'')"
    "absent_or_array (member (change_value change) ''statuses'')"
    "\<not> nonempty_array (member (change_value change) ''messages'')"
    "\<not> nonempty_array (member (change_value change) ''statuses'')"
    by (simp_all add: message_bearing_def)
  then show ?thesis
    using True
    by (simp add: process_change_def Let_def processMessages_quiet processStatuses_quiet)
next
  case False
  then show ?thesis by (simp add: process_change_def)
qed

text \<open>
  C10, as amended. For every payload whose top-level \<open>object\<close> field is
  \<open>whatsapp_business_account\<close>, in which \<open>entry\<close>, the \<open>changes\<close> of every entry and the
  \<open>messages\<close> and \<open>statuses\<close> of every change with field \<open>messages\<close> are arrays wherever they
  are present (each is falsy or an array), and which contains no change with field
  \<open>messages\<close> whose value carries a non-empty \<open>messages\<close> or \<open>statuses\<close> array,
  \<open>processWebhookPayload\<close> returns \<open>true\<close> and calls no handler.
\<close>

theorem quiet_payload_returns_true:
  assumes obj: "member payload ''object'' = JStr ''whatsapp_business_account''"
    and entry: "absent_or_array (member payload ''entry'')"
    and changes: "\<forall>entry\<in>set (payload_entries payload). absent_or_array (member entry ''changes'')"
    and arrays: "\<forall>change\<in>set (payload_changes payload).
          member change ''field'' = JStr ''messages'' \<longrightarrow>
            absent_or_array (member (change_value change) ''messages'') \<and>
            absent_or_array (member (change_value change) ''statuses'')"
    and quiet: "\<forall>change\<in>set (payload_changes payload). \<not> message_bearing change"
  shows "processWebhookPayload hs payload = ([], True)"
proof -
  from entry obtain es where es: "js_or (member payload ''entry'') (JArr []) = JArr es"
    and pes: "payload_entries payload = es"
    unfolding payload_entries_def by (rule absent_or_arrayE)
  have "process_entry hs e = skip" if e: "e \<in> set es" for e
  proof -
    from changes e pes have "absent_or_array (member e ''changes'')" by simp
    then obtain cs where cs: "js_or (member e ''changes'') (JArr []) = JArr cs"
      and ecs: "entry_changes e = cs"
      unfolding entry_changes_def by (rule absent_or_arrayE)
    have "process_change hs c = skip" if c: "c \<in> set cs" for c
    proof -
      from c ecs e pes have "c \<in> set (payload_changes payload)"
        by (auto simp: payload_changes_def)
      with arrays quiet show ?thesis by (intro process_change_quiet) auto
    qed
    then have "for_each (process_change hs) cs = skip" by (rule for_each_skip)
    with cs show ?thesis by (simp add: process_entry_def for_of_def)
  qed
  then have "for_each (process_entry hs) es = skip" by (rule for_each_skip)
  with es obj show ?thesis
    by (simp add: processWebhookPayload_def process_body_def for_of_def)
qed

theorem quiet_payload_returns_true_witness:
  "processWebhookPayload
     (registerEventHandler Map.empty EvMessage (\<lambda>v. Promise Rejected))
     (JObj [(''object'', JStr ''whatsapp_business_account''),
            (''entry'', JArr
               [JObj [(''id'', JStr ''1'')],
                JObj [(''changes'', JArr
                  [JObj [(''field'', JStr ''account_update''),
                         (''value'', JObj [(''messages'', JArr [JStr ''a''])])],
                   JObj [(''field'', JStr ''messages''),
                         (''value'', JObj [(''messages'', JArr [])])]])]])])
   = ([], True)"
  (is "processWebhookPayload ?hs ?payload = ([], True)")
proof -
  have es: "payload_entries ?payload =
      [JObj [(''id'', JStr ''1'')],
       JObj [(''changes'', JArr
                  [JObj [(''field'', JStr ''account_update''),
                         (''value'', JObj [(''messages'', JArr [JStr ''a''])])],
                   JObj [(''field'', JStr ''messages''),
                         (''value'', JObj [(''messages'', JArr [])])]])]]"
    by (simp add: payload_defs)
  have cs: "payload_changes ?payload =
      [JObj [(''field'', JStr ''account_update''),
             (''value'', JObj [(''messages'', JArr [JStr ''a''])])],
       JObj [(''field'', JStr ''messages''), (''value'', JObj [(''messages'', JArr [])])]]"
    by (simp add: payload_defs)
  show ?thesis
  proof (rule quiet_payload_returns_true)
    show "member ?payload ''object'' = JStr ''whatsapp_business_account''" by simp
    show "absent_or_array (member ?payload ''entry'')"
      by (simp add: absent_or_array_def is_array_def)
    show "\<forall>entry\<in>set (payload_entries ?payload). absent_or_array (member entry ''changes'')"
      unfolding es by (simp add: absent_or_array_def is_array_def)
    show "\<forall>change\<in>set (payload_changes ?payload).
          member change ''field'' = JStr ''messages'' \<longrightarrow>
            absent_or_array (member (change_value change) ''messages'') \<and>
            absent_or_array (member (change_value change) ''statuses'')"
      unfolding cs by (simp add: absent_or_array_def is_array_def change_value_def js_or_def)
    show "\<forall>change\<in>set (payload_changes ?payload). \<not> message_bearing change"
      unfolding cs
      by (simp add: message_bearing_def nonempty_array_def change_value_def js_or_def)
  qed
qed

text \<open>
  C10 as it is worded fails on payloads that are well-formed JSON objects but not of the
  shape the casts assume. An \<open>entry\<close> that is an object instead of an array is truthy and
  not iterable: the outer loop throws a \<open>TypeError\<close>, which the \<open>catch\<close> clause turns into
  \<open>false\<close>. A \<open>messages\<close> that is a single object instead of an array is truthy and has no
  \<open>length\<close>, so the test \<^verbatim>\<open>messages.length === 0\<close> fails and the handlers are called. Neither
  payload contains a change with a non-empty \<open>messages\<close> or \<open>statuses\<close> array.
\<close>

theorem quiet_payload_counterexample:
  "member (JObj [(''object'', JStr ''whatsapp_business_account''),
                 (''entry'', JObj [(''id'', JStr ''1'')])]) ''object''
     = JStr ''whatsapp_business_account''
   \<and> payload_changes (JObj [(''object'', JStr ''whatsapp_business_account''),
                            (''entry'', JObj [(''id'', JStr ''1'')])]) = []
   \<and> processWebhookPayload Map.empty
        (JObj [(''object'', JStr ''whatsapp_business_account''),
               (''entry'', JObj [(''id'', JStr ''1'')])]) = ([], False)
   \<and> list_all (\<lambda>change. \<not> message_bearing change)
        (payload_changes (JObj [(''object'', JStr ''whatsapp_business_account''),
           (''entry'', JArr [JObj [(''changes'', JArr [JObj [(''field'', JStr ''messages''),
              (''value'', JObj [(''messages'', JObj [(''id'', JStr ''wamid.1'')])])]])]])]))
   \<and> processWebhookPayload (registerEventHandler Map.empty EvMessage (\<lambda>v. Promise Fulfilled))
        (JObj [(''object'', JStr ''whatsapp_business_account''),
           (''entry'', JArr [JObj [(''changes'', JArr [JObj [(''field'', JStr ''messages''),
              (''value'', JObj [(''messages'', JObj [(''id'', JStr ''wamid.1'')])])]])]])])
      = ([\<lparr>inv_event = EvMessage, inv_handler = 0,
            inv_arg = JObj [(''messages'', JObj [(''id'', JStr ''wamid.1'')])],
            inv_result = Promise Fulfilled\<rparr>], True)"
  by (simp add: dispatch_defs payload_defs message_bearing_def nonempty_array_def)

subsection \<open>Fan-out to the registered message handlers\<close>

lemma process_change_messages:
  assumes "member change ''field'' = JStr ''messages''"
    and "member (change_value change) ''messages'' = JArr (m # ms)"
  shows "process_change hs change =
     seq (fan_out EvMessage (handlers_for hs EvMessage) (change_value change))
         (if truthy (member (change_value change) ''statuses'')
          then processStatuses hs (change_value change) else skip)"
  using assms by (simp add: process_change_def processMessages_def js_or_def Let_def)

text \<open>
  C4, as amended. Let \<open>N\<close> handlers be registered for \<open>message\<close>, and let the payload have
  the \<open>object\<close> field \<open>whatsapp_business_account\<close> and contain a change with field
  \<open>messages\<close> and a non-empty \<open>messages\<close> array. Provided the dispatch of every entry and
  change before that one completed without an exception, and no handler throws
  synchronously when called with the value of the change (it may return a promise that is
  rejected), the handler calls of \<open>processWebhookPayload\<close> are: the calls made for what
  came before, then exactly one call of each of the \<open>N\<close> handlers, in the order of
  registration, each with the value object of that change, and after these only the calls
  for the statuses of this change and for the later changes and entries, which are made
  when none of the \<open>N\<close> promises was rejected.
\<close>

theorem message_handlers_each_invoked_once:
  assumes fresh: "handlers_for hs0 EvMessage = []"
    and reg: "hs = register_all hs0 EvMessage handlers"
    and obj: "member payload ''object'' = JStr ''whatsapp_business_account''"
    and entries: "member payload ''entry'' = JArr (es1 @ entry # es2)"
    and changes: "member entry ''changes'' = JArr (cs1 @ change # cs2)"
    and field: "member change ''field'' = JStr ''messages''"
    and msgs: "member (change_value change) ''messages'' = JArr (m # ms)"
    and before_entries: "for_each (process_entry hs) es1 = (tr1, Inr ())"
    and before_changes: "for_each (process_change hs) cs1 = (tr2, Inr ())"
    and nothrow: "\<forall>h\<in>set handlers. h (change_value change) \<noteq> Throws"
  shows "fst (processWebhookPayload hs payload) =
      tr1 @ tr2 @ message_calls handlers (change_value change) @
      (if list_all (\<lambda>h. h (change_value change) = Promise Fulfilled) handlers
       then fst (seq (if truthy (member (change_value change) ''statuses'')
                      then processStatuses hs (change_value change) else skip)
                (seq (for_each (process_change hs) cs2) (for_each (process_entry hs) es2)))
       else [])"
proof -
  let ?v = "change_value change"
  let ?S = "if truthy (member ?v ''statuses'') then processStatuses hs ?v else skip"
  let ?C2 = "for_each (process_change hs) cs2"
  let ?E2 = "for_each (process_entry hs) es2"
  let ?ok = "list_all (\<lambda>h. h ?v = Promise Fulfilled) handlers"
  have hf: "handlers_for hs EvMessage = handlers"
    using fresh reg by (simp add: handlers_for_register_all)
  have F: "fan_out EvMessage handlers ?v =
      (message_calls handlers ?v, if ?ok then Inr () else Inl HandlerError)"
    using nothrow by (rule fan_out_nothrow)
  have pc: "process_change hs change = seq (fan_out EvMessage handlers ?v) ?S"
    using process_change_messages [OF field msgs, of hs] hf by simp
  have pe: "process_entry hs entry = seq (tr2, Inr ()) (seq (process_change hs change) ?C2)"
    using changes before_changes
    by (simp add: process_entry_def for_of_def js_or_def for_each_append)
  have body: "fst (process_body hs payload) =
      fst (seq (tr1, Inr ()) (seq (process_entry hs entry) ?E2))"
    using obj entries before_entries
    by (simp add: process_body_def for_of_def js_or_def for_each_append)
       (auto simp: seq_def split: prod.splits sum.splits)
  have tail: "fst (seq (seq (fan_out EvMessage handlers ?v) ?S) (seq ?C2 ?E2)) =
      message_calls handlers ?v @ (if ?ok then fst (seq ?S (seq ?C2 ?E2)) else [])"
    unfolding seq_assoc F by (simp add: seq_Inr_left seq_Inl_left)
  have fst_seq: "fst (seq (tr, Inr ()) k) = tr @ fst k" for tr and k :: "unit dispatch"
    by (simp add: seq_Inr_left)
  have "fst (processWebhookPayload hs payload) = fst (process_body hs payload)"
    by (auto simp: processWebhookPayload_def split: prod.splits sum.splits)
  also have "\<dots> = tr1 @ fst (seq (process_entry hs entry) ?E2)"
    unfolding body by (rule fst_seq)
  also have "seq (process_entry hs entry) ?E2 =
      seq (tr2, Inr ()) (seq (seq (fan_out EvMessage handlers ?v) ?S) (seq ?C2 ?E2))"
    unfolding pe pc by (simp only: seq_assoc)
  also have "fst \<dots> = tr2 @ fst (seq (seq (fan_out EvMessage handlers ?v) ?S) (seq ?C2 ?E2))"
    by (rule fst_seq)
  finally show ?thesis unfolding tail by simp
qed

theorem message_handlers_each_invoked_once_witness:
  "fst (processWebhookPayload
     (register_all Map.empty EvMessage [\<lambda>v. Promise Fulfilled, \<lambda>v. Promise Rejected])
     (JObj [(''object'', JStr ''whatsapp_business_account''),
            (''entry'', JArr
               [JObj [(''id'', JStr ''1'')],
                JObj [(''changes'', JArr
                  [JObj [(''field'', JStr ''account_update'')],
                   JObj [(''field'', JStr ''messages''),
                         (''value'', JObj [(''messages'', JArr [JStr ''a''])])],
                   JObj [(''field'', JStr ''messages''),
                         (''value'', JObj [(''messages'', JArr [JStr ''b''])])]])]])]))
   = [\<lparr>inv_event = EvMessage, inv_handler = 0, inv_arg = JObj [(''messages'', JArr [JStr ''a''])],
        inv_result = Promise Fulfilled\<rparr>,
      \<lparr>inv_event = EvMessage, inv_handler = 1, inv_arg = JObj [(''messages'', JArr [JStr ''a''])],
        inv_result = Promise Rejected\<rparr>]"
  (is "fst (processWebhookPayload ?hs ?payload) = ?calls")
proof -
  let ?handlers = "[\<lambda>v. Promise Fulfilled, \<lambda>v. Promise Rejected] :: handler list"
  let ?e1 = "JObj [(''id'', JStr ''1'')]"
  let ?c1 = "JObj [(''field'', JStr ''account_update'')]"
  let ?change = "JObj [(''field'', JStr ''messages''),
                       (''value'', JObj [(''messages'', JArr [JStr ''a''])])]"
  let ?c2 = "JObj [(''field'', JStr ''messages''),
                   (''value'', JObj [(''messages'', JArr [JStr ''b''])])]"
  let ?entry = "JObj [(''changes'', JArr [?c1, ?change, ?c2])]"
  have fresh: "handlers_for Map.empty EvMessage = []"
    by (simp add: handlers_for_def)
  have obj: "member ?payload ''object'' = JStr ''whatsapp_business_account''" by simp
  have entries: "member ?payload ''entry'' = JArr ([?e1] @ ?entry # [])" by simp
  have changes: "member ?entry ''changes'' = JArr ([?c1] @ ?change # [?c2])" by simp
  have field: "member ?change ''field'' = JStr ''messages''" by simp
  have msgs: "member (change_value ?change) ''messages'' = JArr (JStr ''a'' # [])"
    by (simp add: change_value_def js_or_def)
  have before_entries: "for_each (process_entry ?hs) [?e1] = ([], Inr ())"
    by (simp add: process_entry_def for_of_def js_or_def skip_def seq_def)
  have before_changes: "for_each (process_change ?hs) [?c1] = ([], Inr ())"
    by (simp add: process_change_def skip_def seq_def)
  have nothrow: "\<forall>h\<in>set ?handlers. h (change_value ?change) \<noteq> Throws" by simp
  from message_handlers_each_invoked_once
    [OF fresh refl obj entries changes field msgs before_entries before_changes nothrow]
  show ?thesis
    by (simp add: message_calls_def change_value_def js_or_def)
qed

text \<open>
  C4 as it is worded fails when a handler fails on an earlier change: the rejected promise
  makes the awaited \<^verbatim>\<open>Promise.all\<close> throw, the \<^verbatim>\<open>catch\<close> clause returns \<open>false\<close>, and the
  loops never reach the later change. Here the second change has the field \<open>messages\<close>
  and a non-empty \<open>messages\<close> array, and the one registered handler is never called with
  its value.
\<close>

theorem message_handlers_counterexample:
  "(let hs = register_all Map.empty EvMessage [\<lambda>v. Promise Rejected];
        first = JObj [(''field'', JStr ''messages''),
                      (''value'', JObj [(''messages'', JArr [JStr ''a''])])];
        second = JObj [(''field'', JStr ''messages''),
                       (''value'', JObj [(''messages'', JArr [JStr ''b''])])];
        payload = JObj [(''object'', JStr ''whatsapp_business_account''),
                        (''entry'', JArr [JObj [(''changes'', JArr [first, second])]])]
    in payload_changes payload = [first, second]
       \<and> member second ''field'' = JStr ''messages''
       \<and> member (change_value second) ''messages'' = JArr [JStr ''b'']
       \<and> processWebhookPayload hs payload =
           ([\<lparr>inv_event = EvMessage, inv_handler = 0, inv_arg = change_value first,
              inv_result = Promise Rejected\<rparr>], False)
       \<and> filter (\<lambda>call. inv_arg call = change_value second)
            (fst (processWebhookPayload hs payload)) = [])"
proof -
  let ?hs = "register_all Map.empty EvMessage [\<lambda>v. Promise Rejected]"
  let ?first = "JObj [(''field'', JStr ''messages''),
                      (''value'', JObj [(''messages'', JArr [JStr ''a''])])]"
  let ?second = "JObj [(''field'', JStr ''messages''),
                       (''value'', JObj [(''messages'', JArr [JStr ''b''])])]"
  let ?payload = "JObj [(''object'', JStr ''whatsapp_business_account''),
                        (''entry'', JArr [JObj [(''changes'', JArr [?first, ?second])]])]"
  have v1: "change_value ?first = JObj [(''messages'', JArr [JStr ''a''])]"
    by (simp add: change_value_def js_or_def)
  have v2: "change_value ?second = JObj [(''messages'', JArr [JStr ''b''])]"
    by (simp add: change_value_def js_or_def)
  have changes: "payload_changes ?payload = [?first, ?second]"
    by (simp add: payload_changes_def payload_entries_def entry_changes_def elements_def
        js_or_def)
  have hf: "handlers_for ?hs EvMessage = [\<lambda>v. Promise Rejected]"
  proof -
    have "handlers_for Map.empty EvMessage = []" by (simp add: handlers_for_def)
    then show ?thesis by (simp only: handlers_for_register_all append_Nil)
  qed
  have fan: "fan_out EvMessage [\<lambda>v. Promise Rejected] v =
      ([\<lparr>inv_event = EvMessage, inv_handler = 0, inv_arg = v, inv_result = Promise Rejected\<rparr>],
       Inl HandlerError)" for v
    by (simp add: fan_out_def await_all_def)
  have pc: "process_change ?hs ?first =
      ([\<lparr>inv_event = EvMessage, inv_handler = 0, inv_arg = JObj [(''messages'', JArr [JStr ''a''])],
         inv_result = Promise Rejected\<rparr>], Inl HandlerError)"
    by (simp add: process_change_def v1 processMessages_def js_or_def hf fan seq_Inl_left)
  have pe: "process_entry ?hs (JObj [(''changes'', JArr [?first, ?second])]) =
      ([\<lparr>inv_event = EvMessage, inv_handler = 0, inv_arg = JObj [(''messages'', JArr [JStr ''a''])],
         inv_result = Promise Rejected\<rparr>], Inl HandlerError)"
    by (simp add: process_entry_def for_of_def js_or_def pc seq_Inl_left)
  have run: "processWebhookPayload ?hs ?payload =
      ([\<lparr>inv_event = EvMessage, inv_handler = 0, inv_arg = JObj [(''messages'', JArr [JStr ''a''])],
         inv_result = Promise Rejected\<rparr>], False)"
    by (simp add: processWebhookPayload_def process_body_def for_of_def js_or_def pe seq_Inl_left)
  show ?thesis
    unfolding Let_def changes v1 v2 run by simp
qed

section \<open>Properties of the outbound message sender\<close>

text \<open>
  C3. For every message object passed to \<open>sendMessage\<close>, the body handed to the \<open>post\<close> of
  the HTTP client is the input message with \<open>messaging_product\<close> set to the literal
  \<open>whatsapp\<close>, whether the input had the field, with another value or not at all, and every
  other field of the input is in the body with its value unchanged, and no field is
  added. The request that \<open>post\<close> builds carries the serialisation of that body.
\<close>

theorem sendMessage_forces_messaging_product:
  "sendMessage http_post config message =
     http_post (phoneNumberId config @ ''/messages'') (JObj (messageToSend message))
   \<and> map_of (messageToSend message) = (map_of message)(''messaging_product'' \<mapsto> JStr ''whatsapp'')
   \<and> map_of (messageToSend message) ''messaging_product'' = Some (JStr ''whatsapp'')
   \<and> (\<forall>k. k \<noteq> ''messaging_product'' \<longrightarrow> map_of (messageToSend message) k = map_of message k)
   \<and> req_body (post_request stringify config (phoneNumberId config @ ''/messages'')
                 (JObj (messageToSend message)))
      = stringify (JObj (messageToSend message))"
  by (simp add: sendMessage_def messageToSend_def update_conv' post_request_def)

theorem sendMessage_forces_messaging_product_witness:
  "sendMessage (\<lambda>endpoint body. Inr body)
       \<lparr>businessAccountId = ''test-business-id'', phoneNumberId = ''test-phone-id'',
        apiVersion = ''v15.0'', accessToken = ''test-access-token'',
        webhookVerificationToken = ''test-verification-token'',
        apiBaseUrl = ''https://graph.facebook.com'', defaultLanguageCode = ''en_US''\<rparr>
     [(''to'', JStr ''+1234567890''), (''type'', JStr ''text''),
      (''text'', JObj [(''body'', JStr ''Hello, world!'')])]
   = Inr (JObj [(''to'', JStr ''+1234567890''), (''type'', JStr ''text''),
                (''text'', JObj [(''body'', JStr ''Hello, world!'')]),
                (''messaging_product'', JStr ''whatsapp'')])
   \<and> map_of (messageToSend [(''to'', JStr ''+1234567890''), (''type'', JStr ''text''),
         (''text'', JObj [(''body'', JStr ''Hello, world!'')])]) ''to''
      = Some (JStr ''+1234567890'')"
  (is "sendMessage ?spy ?config ?message = _ \<and> _")
proof -
  note inst = sendMessage_forces_messaging_product [of ?spy ?config ?message stringify]
  from inst have "sendMessage ?spy ?config ?message =
      ?spy (phoneNumberId ?config @ ''/messages'') (JObj (messageToSend ?message))"
    by (rule conjunct1)
  moreover have "messageToSend ?message = ?message @ [(''messaging_product'', JStr ''whatsapp'')]"
    by (simp add: messageToSend_def)
  moreover from inst have
    "\<forall>k. k \<noteq> ''messaging_product'' \<longrightarrow> map_of (messageToSend ?message) k = map_of ?message k"
    by blast
  then have "map_of (messageToSend ?message) ''to'' = map_of ?message ''to''" by simp
  ultimately show ?thesis by simp
qed

lemma api_error_message_parts:
  "sublist (show_nat (status r)) (api_error_message stringify r)"
  "sublist (statusText r) (api_error_message stringify r)"
  "sublist (stringify (errorData r)) (api_error_message stringify r)"
proof -
  let ?m = "api_error_message stringify r"
  have "?m = ''WhatsApp API error: '' @ show_nat (status r) @
      ('' '' @ statusText r @ '' - '' @ stringify (errorData r))"
    by (simp add: api_error_message_def)
  then show "sublist (show_nat (status r)) ?m"
    unfolding sublist_def by blast
  have "?m = (''WhatsApp API error: '' @ show_nat (status r) @ '' '') @ statusText r @
      ('' - '' @ stringify (errorData r))"
    by (simp add: api_error_message_def)
  then show "sublist (statusText r) ?m"
    unfolding sublist_def by blast
  have "?m = (''WhatsApp API error: '' @ show_nat (status r) @ '' '' @ statusText r @ '' - '') @
      stringify (errorData r) @ []"
    by (simp add: api_error_message_def)
  then show "sublist (stringify (errorData r)) ?m"
    unfolding sublist_def by blast
qed

text \<open>
  C5, as amended. For every endpoint and body, when \<open>fetch\<close> yields a response that is not
  ok, \<open>post\<close> (and hence \<open>sendMessage\<close> over it) throws an \<open>Error\<close> and returns no value, and
  the message of the error is \<^verbatim>\<open>WhatsApp API error: <status> <statusText> - <data>\<close>: it
  contains the numeric status code, the status text, and the serialisation of the parsed
  response body, or of the empty object when the body cannot be parsed as JSON.
\<close>

theorem post_throws_on_error_response:
  assumes "fetch (post_request stringify config endpoint body) = Inr r"
    and "\<not> ok r"
  shows "post fetch stringify config endpoint body =
           Inl (Error (''WhatsApp API error: '' @ show_nat (status r) @ '' '' @ statusText r @
                       '' - '' @ stringify (case json r of Some d \<Rightarrow> d | None \<Rightarrow> JObj [])))
       \<and> sublist (show_nat (status r)) (api_error_message stringify r)
       \<and> sublist (statusText r) (api_error_message stringify r)
       \<and> sublist (stringify (case json r of Some d \<Rightarrow> d | None \<Rightarrow> JObj []))
            (api_error_message stringify r)
       \<and> (endpoint = phoneNumberId config @ ''/messages'' \<and> body = JObj (messageToSend message)
            \<longrightarrow> sendMessage (post fetch stringify config) config message =
                  Inl (Error (api_error_message stringify r)))"
proof -
  have p: "post fetch stringify config endpoint body = Inl (Error (api_error_message stringify r))"
    using assms by (simp add: post_def)
  have m: "api_error_message stringify r =
      ''WhatsApp API error: '' @ show_nat (status r) @ '' '' @ statusText r @
      '' - '' @ stringify (case json r of Some d \<Rightarrow> d | None \<Rightarrow> JObj [])"
    by (simp only: api_error_message_def errorData_def)
  have e: "errorData r = (case json r of Some d \<Rightarrow> d | None \<Rightarrow> JObj [])"
    by (simp only: errorData_def)
  have s: "endpoint = phoneNumberId config @ ''/messages'' \<and> body = JObj (messageToSend message)
            \<longrightarrow> sendMessage (post fetch stringify config) config message =
                  Inl (Error (api_error_message stringify r))"
    using p by (auto simp: sendMessage_def)
  from p m have "post fetch stringify config endpoint body =
           Inl (Error (''WhatsApp API error: '' @ show_nat (status r) @ '' '' @ statusText r @
                       '' - '' @ stringify (case json r of Some d \<Rightarrow> d | None \<Rightarrow> JObj [])))"
    by (simp only:)
  moreover note api_error_message_parts(1,2) [where r = r and stringify = stringify]
  moreover from api_error_message_parts(3) [where r = r and stringify = stringify]
  have "sublist (stringify (case json r of Some d \<Rightarrow> d | None \<Rightarrow> JObj []))
            (api_error_message stringify r)"
    unfolding e .
  ultimately show ?thesis using s by blast
qed

theorem post_throws_on_error_response_witness:
  "post (\<lambda>req. Inr \<lparr>ok = False, status = 400, statusText = ''Bad Request'',
                     json = Some (JObj [])\<rparr>)
        (\<lambda>v. if v = JObj [] then ''{}'' else ''null'')
       \<lparr>businessAccountId = ''test-business-id'', phoneNumberId = ''test-phone-id'',
        apiVersion = ''v15.0'', accessToken = ''test-access-token'',
        webhookVerificationToken = ''test-verification-token'',
        apiBaseUrl = ''https://graph.facebook.com'', defaultLanguageCode = ''en_US''\<rparr>
        ''test-phone-id/messages''
        (JObj [(''invalid'', JStr ''data'')])
   = Inl (Error ''WhatsApp API error: 400 Bad Request - {}'')"
  (is "post ?fetch ?stringify ?config ?endpoint ?body = _")
proof -
  let ?r = "\<lparr>ok = False, status = 400, statusText = ''Bad Request'', json = Some (JObj [])\<rparr>"
  have f: "?fetch (post_request ?stringify ?config ?endpoint ?body) = Inr ?r" by simp
  have n: "\<not> ok ?r" by simp
  have d: "show_nat 400 = ''400''" by code_simp
  from f n post_throws_on_error_response [of ?fetch ?stringify ?config ?endpoint ?body ?r]
  show ?thesis
    by (simp add: d)
qed

text \<open>
  C5 as it is worded fails on a response whose body is not JSON, an HTML error page of a
  proxy for instance: \<^verbatim>\<open>response.json()\<close> is rejected, the \<^verbatim>\<open>catch\<close> replaces the body by the
  empty object, and the message ends with the serialisation of \<open>{}\<close>, whatever the body was.
\<close>

theorem post_error_body_counterexample:
  "\<forall>stringify config endpoint body.
     post (\<lambda>req. Inr \<lparr>ok = False, status = 502, statusText = ''Bad Gateway'', json = None\<rparr>)
       stringify config endpoint body
       = Inl (Error (''WhatsApp API error: 502 Bad Gateway - '' @ stringify (JObj [])))
     \<and> \<not> embeds_response stringify
           \<lparr>ok = False, status = 502, statusText = ''Bad Gateway'', json = None\<rparr>
           (''WhatsApp API error: 502 Bad Gateway - '' @ stringify (JObj []))"
proof -
  have d: "show_nat 502 = ''502''" by code_simp
  show ?thesis
    by (simp add: post_def api_error_message_def errorData_def embeds_response_def d)
qed

section \<open>Properties of the configuration\<close>

lemma sublist_join: "v \<in> set vs \<Longrightarrow> sublist v (join sep vs)"
proof (induction sep vs rule: join.induct)
  case (1 sep)
  then show ?case by simp
next
  case (2 sep x)
  then show ?case by simp
next
  case (3 sep x y ys)
  show ?case
  proof (cases "v = x")
    case True
    then show ?thesis by simp
  next
    case False
    with 3 have "sublist v (join sep (y # ys))" by simp
    then obtain ps ss where "join sep (y # ys) = ps @ v @ ss" by (auto simp: sublist_def)
    then have "join sep (x # y # ys) = (x @ sep @ ps) @ v @ ss" by simp
    then show ?thesis unfolding sublist_def by blast
  qed
qed

lemma env_falsy_iff: "env_falsy env v \<longleftrightarrow> env v = None \<or> env v = Some []"
  by (auto simp: env_falsy_def split: option.splits)

lemma env_or_eq:
  "env_or env v d = (case env v of Some s \<Rightarrow> if s = [] then d else s | None \<Rightarrow> d)"
  by (simp add: env_or_def env_falsy_def split: option.splits)

lemma fromEnv_Inl_iff:
  "(\<exists>e. fromEnv env = Inl e) \<longleftrightarrow> (\<exists>v\<in>set requiredVars. env_falsy env v)"
  by (auto simp: fromEnv_def Let_def filter_empty_conv)

lemma fromEnv_Inl:
  "fromEnv env = Inl e \<Longrightarrow>
     e = Error (''Missing required environment variables: '' @
                join '', '' (filter (env_falsy env) requiredVars))"
  by (auto simp: fromEnv_def Let_def split: if_splits)

lemma fromEnv_Inr:
  assumes "fromEnv env = Inr c"
  shows "env ''WHATSAPP_BUSINESS_ACCOUNT_ID'' = Some (businessAccountId c)"
    and "env ''WHATSAPP_PHONE_NUMBER_ID'' = Some (phoneNumberId c)"
    and "env ''WHATSAPP_API_VERSION'' = Some (apiVersion c)"
    and "env ''WHATSAPP_ACCESS_TOKEN'' = Some (accessToken c)"
    and "env ''WHATSAPP_WEBHOOK_VERIFICATION_TOKEN'' = Some (webhookVerificationToken c)"
    and "apiBaseUrl c = env_or env ''WHATSAPP_API_BASE_URL'' ''https://graph.facebook.com''"
    and "defaultLanguageCode c = env_or env ''WHATSAPP_DEFAULT_LANGUAGE_CODE'' ''en_US''"
proof -
  from assms have none: "filter (env_falsy env) requiredVars = []"
    and c: "c = WhatsAppConfig
                (env_required env ''WHATSAPP_BUSINESS_ACCOUNT_ID'')
                (env_required env ''WHATSAPP_PHONE_NUMBER_ID'')
                (env_required env ''WHATSAPP_API_VERSION'')
                (env_required env ''WHATSAPP_ACCESS_TOKEN'')
                (env_required env ''WHATSAPP_WEBHOOK_VERIFICATION_TOKEN'')
                (Some (env_or env ''WHATSAPP_API_BASE_URL'' ''https://graph.facebook.com''))
                (Some (env_or env ''WHATSAPP_DEFAULT_LANGUAGE_CODE'' ''en_US''))"
    by (auto simp: fromEnv_def Let_def split: if_splits)
  from none have set: "\<forall>v\<in>set requiredVars. \<not> env_falsy env v"
    by (simp add: filter_empty_conv)
  have req: "env v = Some (env_required env v)" if "v \<in> set requiredVars" for v
    using set that by (auto simp: env_falsy_def env_required_def split: option.splits)
  show "env ''WHATSAPP_BUSINESS_ACCOUNT_ID'' = Some (businessAccountId c)"
    using req [of "''WHATSAPP_BUSINESS_ACCOUNT_ID''"]
    by (simp add: c WhatsAppConfig_def requiredVars_def)
  show "env ''WHATSAPP_PHONE_NUMBER_ID'' = Some (phoneNumberId c)"
    using req [of "''WHATSAPP_PHONE_NUMBER_ID''"]
    by (simp add: c WhatsAppConfig_def requiredVars_def)
  show "env ''WHATSAPP_API_VERSION'' = Some (apiVersion c)"
    using req [of "''WHATSAPP_API_VERSION''"]
    by (simp add: c WhatsAppConfig_def requiredVars_def)
  show "env ''WHATSAPP_ACCESS_TOKEN'' = Some (accessToken c)"
    using req [of "''WHATSAPP_ACCESS_TOKEN''"]
    by (simp add: c WhatsAppConfig_def requiredVars_def)
  show "env ''WHATSAPP_WEBHOOK_VERIFICATION_TOKEN'' = Some (webhookVerificationToken c)"
    using req [of "''WHATSAPP_WEBHOOK_VERIFICATION_TOKEN''"]
    by (simp add: c WhatsAppConfig_def requiredVars_def)
  show "apiBaseUrl c = env_or env ''WHATSAPP_API_BASE_URL'' ''https://graph.facebook.com''"
    by (simp add: c WhatsAppConfig_def)
  show "defaultLanguageCode c = env_or env ''WHATSAPP_DEFAULT_LANGUAGE_CODE'' ''en_US''"
    by (simp add: c WhatsAppConfig_def)
qed

text \<open>
  C8, as amended. \<open>fromEnv\<close> throws exactly when at least one of the five required
  variables is unset or set to the empty string; the error is then an \<open>Error\<close> whose
  message lists those variables, in the order of \<open>requiredVars\<close> and joined by commas, so
  that it names each of them. When all five are set and not empty, it returns a config
  holding their values, in which \<open>apiBaseUrl\<close> is the value of \<open>WHATSAPP_API_BASE_URL\<close>, or
  \<open>https://graph.facebook.com\<close> when that variable is unset or empty, and
  \<open>defaultLanguageCode\<close> is the value of \<open>WHATSAPP_DEFAULT_LANGUAGE_CODE\<close>, or \<open>en_US\<close> when
  that variable is unset or empty.
\<close>

theorem fromEnv_throws_iff_missing:
  "((\<exists>e. fromEnv env = Inl e)
      \<longleftrightarrow> (\<exists>v\<in>set requiredVars. env v = None \<or> env v = Some []))
   \<and> (\<forall>e. fromEnv env = Inl e \<longrightarrow>
         e = Error (''Missing required environment variables: '' @
               join '', '' (filter (\<lambda>v. env v = None \<or> env v = Some []) requiredVars))
         \<and> (\<forall>v\<in>set requiredVars. env v = None \<or> env v = Some [] \<longrightarrow>
               (\<exists>msg. e = Error msg \<and> sublist v msg)))
   \<and> (\<forall>c. fromEnv env = Inr c \<longrightarrow>
         env ''WHATSAPP_BUSINESS_ACCOUNT_ID'' = Some (businessAccountId c)
         \<and> env ''WHATSAPP_PHONE_NUMBER_ID'' = Some (phoneNumberId c)
         \<and> env ''WHATSAPP_API_VERSION'' = Some (apiVersion c)
         \<and> env ''WHATSAPP_ACCESS_TOKEN'' = Some (accessToken c)
         \<and> env ''WHATSAPP_WEBHOOK_VERIFICATION_TOKEN'' = Some (webhookVerificationToken c)
         \<and> apiBaseUrl c =
             (case env ''WHATSAPP_API_BASE_URL'' of
                Some u \<Rightarrow> if u = [] then ''https://graph.facebook.com'' else u
              | None \<Rightarrow> ''https://graph.facebook.com'')
         \<and> defaultLanguageCode c =
             (case env ''WHATSAPP_DEFAULT_LANGUAGE_CODE'' of
                Some l \<Rightarrow> if l = [] then ''en_US'' else l
              | None \<Rightarrow> ''en_US''))"
proof (intro conjI allI impI)
  show "(\<exists>e. fromEnv env = Inl e)
      \<longleftrightarrow> (\<exists>v\<in>set requiredVars. env v = None \<or> env v = Some [])"
    by (simp add: fromEnv_Inl_iff env_falsy_iff)
next
  fix e assume e: "fromEnv env = Inl e"
  have f: "env_falsy env = (\<lambda>v. env v = None \<or> env v = Some [])"
    by (rule ext) (rule env_falsy_iff)
  from fromEnv_Inl [OF e] show msg: "e = Error (''Missing required environment variables: '' @
               join '', '' (filter (\<lambda>v. env v = None \<or> env v = Some []) requiredVars))"
    unfolding f .
  show "\<forall>v\<in>set requiredVars. env v = None \<or> env v = Some [] \<longrightarrow>
               (\<exists>msg. e = Error msg \<and> sublist v msg)"
  proof (intro ballI impI)
    fix v assume "v \<in> set requiredVars" "env v = None \<or> env v = Some []"
    then have "v \<in> set (filter (\<lambda>v. env v = None \<or> env v = Some []) requiredVars)"
      by simp
    then have "sublist v
        (join '', '' (filter (\<lambda>v. env v = None \<or> env v = Some []) requiredVars))"
      by (rule sublist_join)
    then obtain ps ss where
      "join '', '' (filter (\<lambda>v. env v = None \<or> env v = Some []) requiredVars) = ps @ v @ ss"
      by (auto simp: sublist_def)
    then have "''Missing required environment variables: '' @
        join '', '' (filter (\<lambda>v. env v = None \<or> env v = Some []) requiredVars)
        = (''Missing required environment variables: '' @ ps) @ v @ ss"
      by simp
    then have "sublist v (''Missing required environment variables: '' @
        join '', '' (filter (\<lambda>v. env v = None \<or> env v = Some []) requiredVars))"
      unfolding sublist_def by blast
    with msg show "\<exists>msg. e = Error msg \<and> sublist v msg" by blast
  qed
next
  fix c assume c: "fromEnv env = Inr c"
  note r = fromEnv_Inr [OF c]
  show "env ''WHATSAPP_BUSINESS_ACCOUNT_ID'' = Some (businessAccountId c)" by (rule r(1))
  show "env ''WHATSAPP_PHONE_NUMBER_ID'' = Some (phoneNumberId c)" by (rule r(2))
  show "env ''WHATSAPP_API_VERSION'' = Some (apiVersion c)" by (rule r(3))
  show "env ''WHATSAPP_ACCESS_TOKEN'' = Some (accessToken c)" by (rule r(4))
  show "env ''WHATSAPP_WEBHOOK_VERIFICATION_TOKEN'' = Some (webhookVerificationToken c)"
    by (rule r(5))
  show "apiBaseUrl c =
             (case env ''WHATSAPP_API_BASE_URL'' of
                Some u \<Rightarrow> if u = [] then ''https://graph.facebook.com'' else u
              | None \<Rightarrow> ''https://graph.facebook.com'')"
    using r(6) by (simp add: env_or_eq)
  show "defaultLanguageCode c =
             (case env ''WHATSAPP_DEFAULT_LANGUAGE_CODE'' of
                Some l \<Rightarrow> if l = [] then ''en_US'' else l
              | None \<Rightarrow> ''en_US'')"
    using r(7) by (simp add: env_or_eq)
qed

theorem fromEnv_throws_iff_missing_witness:
  "fromEnv (map_of [(''WHATSAPP_BUSINESS_ACCOUNT_ID'', ''test-business-id''),
          (''WHATSAPP_PHONE_NUMBER_ID'', ''test-phone-id''),
          (''WHATSAPP_API_VERSION'', ''v15.0''),
          (''WHATSAPP_ACCESS_TOKEN'', ''test-access-token''),
          (''WHATSAPP_WEBHOOK_VERIFICATION_TOKEN'', ''test-verification-token''),
          (''WHATSAPP_DEFAULT_LANGUAGE_CODE'', ''es_ES'')])
   = Inr \<lparr>businessAccountId = ''test-business-id'', phoneNumberId = ''test-phone-id'',
          apiVersion = ''v15.0'', accessToken = ''test-access-token'',
          webhookVerificationToken = ''test-verification-token'',
          apiBaseUrl = ''https://graph.facebook.com'', defaultLanguageCode = ''es_ES''\<rparr>
   \<and> fromEnv (map_of [(''WHATSAPP_BUSINESS_ACCOUNT_ID'', ''test-business-id''),
          (''WHATSAPP_PHONE_NUMBER_ID'', ''test-phone-id''),
          (''WHATSAPP_API_VERSION'', ''v15.0''),
          (''WHATSAPP_WEBHOOK_VERIFICATION_TOKEN'', ''test-verification-token'')])
     = Inl (Error ''Missing required environment variables: WHATSAPP_ACCESS_TOKEN'')"
  (is "fromEnv ?full = Inr ?config \<and> fromEnv ?partial = Inl ?error")
proof -
  have "\<not> (\<exists>v\<in>set requiredVars. ?full v = None \<or> ?full v = Some [])"
    by (simp add: requiredVars_def)
  with fromEnv_throws_iff_missing [of ?full] have "\<not> (\<exists>e. fromEnv ?full = Inl e)"
    by blast
  then obtain c where c: "fromEnv ?full = Inr c" by (cases "fromEnv ?full") auto
  from fromEnv_throws_iff_missing [of ?full] c
  have "?full ''WHATSAPP_BUSINESS_ACCOUNT_ID'' = Some (businessAccountId c)"
    and "?full ''WHATSAPP_PHONE_NUMBER_ID'' = Some (phoneNumberId c)"
    and "?full ''WHATSAPP_API_VERSION'' = Some (apiVersion c)"
    and "?full ''WHATSAPP_ACCESS_TOKEN'' = Some (accessToken c)"
    and "?full ''WHATSAPP_WEBHOOK_VERIFICATION_TOKEN'' = Some (webhookVerificationToken c)"
    and "apiBaseUrl c =
             (case ?full ''WHATSAPP_API_BASE_URL'' of
                Some u \<Rightarrow> if u = [] then ''https://graph.facebook.com'' else u
              | None \<Rightarrow> ''https://graph.facebook.com'')"
    and "defaultLanguageCode c =
             (case ?full ''WHATSAPP_DEFAULT_LANGUAGE_CODE'' of
                Some l \<Rightarrow> if l = [] then ''en_US'' else l
              | None \<Rightarrow> ''en_US'')"
    by blast+
  then have "c = ?config" by simp
  with c have full: "fromEnv ?full = Inr ?config" by simp
  have "\<exists>v\<in>set requiredVars. ?partial v = None \<or> ?partial v = Some []"
    by (simp add: requiredVars_def)
  with fromEnv_throws_iff_missing [of ?partial] obtain e where e: "fromEnv ?partial = Inl e"
    by blast
  with fromEnv_throws_iff_missing [of ?partial]
  have "e = Error (''Missing required environment variables: '' @
               join '', '' (filter (\<lambda>v. ?partial v = None \<or> ?partial v = Some []) requiredVars))"
    by blast
  then have "e = ?error" by (simp add: requiredVars_def)
  with e full show ?thesis by simp
qed

text \<open>
  C8 as it is worded fails when a required variable is set to the empty string: all five
  variables are set, and \<open>fromEnv\<close> throws all the same, naming the empty one as missing,
  since \<^verbatim>\<open>!process.env[varName]\<close> holds of the empty string.
\<close>

theorem fromEnv_empty_value_counterexample:
  "list_all (\<lambda>v. map_of [(''WHATSAPP_BUSINESS_ACCOUNT_ID'', ''test-business-id''),
          (''WHATSAPP_PHONE_NUMBER_ID'', ''test-phone-id''),
          (''WHATSAPP_API_VERSION'', ''v15.0''),
          (''WHATSAPP_ACCESS_TOKEN'', []),
          (''WHATSAPP_WEBHOOK_VERIFICATION_TOKEN'', ''test-verification-token'')] v \<noteq> None)
     requiredVars
   \<and> fromEnv (map_of [(''WHATSAPP_BUSINESS_ACCOUNT_ID'', ''test-business-id''),
          (''WHATSAPP_PHONE_NUMBER_ID'', ''test-phone-id''),
          (''WHATSAPP_API_VERSION'', ''v15.0''),
          (''WHATSAPP_ACCESS_TOKEN'', []),
          (''WHATSAPP_WEBHOOK_VERIFICATION_TOKEN'', ''test-verification-token'')])
     = Inl (Error ''Missing required environment variables: WHATSAPP_ACCESS_TOKEN'')"
  by (simp add: fromEnv_def requiredVars_def env_falsy_def)

section \<open>Properties of the media message use case\<close>

text \<open>
  C9. For every \<open>SendMediaMessageParams\<close> in which both \<open>mediaId\<close> and \<open>mediaUrl\<close> are
  absent, \<open>sendMediaMessage\<close> throws an \<open>Error\<close> with the message
  \<open>Either mediaId or mediaUrl must be provided\<close>, and the \<open>sendMessage\<close> of the repository is
  not called: no message is passed to it.
\<close>

theorem sendMediaMessage_requires_media:
  assumes "mediaId params = None" and "mediaUrl params = None"
  shows "sendMediaMessage repository_sendMessage params =
           ([], Inl (Error ''Either mediaId or mediaUrl must be provided''))"
  using assms by (simp add: sendMediaMessage_def provided_def)

theorem sendMediaMessage_requires_media_witness:
  "sendMediaMessage (\<lambda>message. Inr (JObj message))
     \<lparr>to = ''+1234567890'', mediaType = Image, mediaId = None, mediaUrl = None,
      caption = Some ''Test Caption'', filename = None, replyToMessageId = None\<rparr>
   = ([], Inl (Error ''Either mediaId or mediaUrl must be provided''))"
  by (rule sendMediaMessage_requires_media) simp_all

end
